theory Spec2Isabelle
  imports Main "HOL-Library.Word"
begin

section \<open>Dynamically typed values\<close>

text \<open>
  A Go value of type \<^verbatim>\<open>any\<close>, restricted to the dynamic types that occur here: what
  \<^verbatim>\<open>json.Unmarshal\<close> stores into a \<^verbatim>\<open>map[string]any\<close> (nil, bool, float64, string, []any,
  map[string]any) and the \<^verbatim>\<open>int\<close> that the conversion produces. A float64 is kept as its
  64-bit pattern; nothing below computes with it. A Go map is an association list; its
  iteration order, which Go leaves unspecified, is the order of the list, and every
  theorem below holds for each order.
\<close>

datatype any = VNil | VBool bool | VFloat64 "64 word" | VString string | VInt int
  | VSlice "any list" | VMap "(string \<times> any) list"

text \<open>The index expression \<^verbatim>\<open>m[k]\<close>: the zero value (nil) when the key is absent.\<close>

definition index_map :: "(string \<times> any) list \<Rightarrow> string \<Rightarrow> any" where
  "index_map m k = (case map_of m k of None \<Rightarrow> VNil | Some v \<Rightarrow> v)"

text \<open>The type assertions \<^verbatim>\<open>v.(map[string]any)\<close> and \<^verbatim>\<open>v.(string)\<close> in their two-result form.\<close>

definition assert_map :: "any \<Rightarrow> (string \<times> any) list option" where
  "assert_map v = (case v of VMap m \<Rightarrow> Some m | _ \<Rightarrow> None)"

definition assert_string :: "any \<Rightarrow> string option" where
  "assert_string v = (case v of VString s \<Rightarrow> Some s | _ \<Rightarrow> None)"

section \<open>Errors and outcomes\<close>

datatype NumError = ErrSyntax | ErrRange

text \<open>
  The error of \<^verbatim>\<open>mapstructure.Decode\<close>: either the input is no map, or a list of fields
  (field name, offending datum) that could not be converted.
\<close>

datatype mapstructure_error = ExpectedMap any | DecodeErrors "(string \<times> any) list"

text \<open>
  The errors the package returns. \<open>ErrorsNew msg\<close> is \<^verbatim>\<open>errors.New(msg)\<close>;
  \<open>ParsingAttribute prop err\<close> is
  \<^verbatim>\<open>fmt.Errorf("parsing attribute <%s>: %w", prop, err)\<close>, kept as the two arguments
  the format receives; \<open>ErrProcessSchema\<close> is the package variable of that name.
\<close>

text \<open>
  Modelled from the spec: \<^verbatim>\<open>newCredentialLinkAttributeError\<close> is declared outside the
  sources at hand; the spec has every conversion failure returned to the caller as an error
  value distinguished by what went wrong, so \<open>CredentialLinkAttributeError msg\<close> carries
  the message it is built from.
\<close>

datatype error = ErrorsNew string | ParsingAttribute any mapstructure_error
  | ErrProcessSchema | CredentialLinkAttributeError string

text \<open>
  A run-time panic: index \<open>i\<close> out of range for length \<open>n\<close>, or slice bounds out of
  range.
\<close>

datatype panic = IndexOutOfRange int nat | SliceBoundsOutOfRange int nat

datatype 'a outcome = Returns 'a | Fails error | Panics panic

section \<open>Library functions the package calls\<close>

subsection \<open>strconv\<close>

text \<open>
  \<^verbatim>\<open>strconv.Atoi\<close>, \<^verbatim>\<open>strconv.ParseInt\<close>, \<^verbatim>\<open>strconv.ParseUint\<close> and
  \<^verbatim>\<open>strconv.ParseBool\<close> of the Go standard library, for base 10. Each returns a value
  and an error, as in Go. \<open>IntSize\<close> is the width of \<^verbatim>\<open>int\<close> on the 64-bit targets.
\<close>

definition IntSize :: nat where
  "IntSize = 64"

definition maxUint64 :: nat where
  "maxUint64 = 2 ^ 64 - 1"

definition isDigit :: "char \<Rightarrow> bool" where
  "isDigit c \<longleftrightarrow> (48::nat) \<le> of_char c \<and> of_char c \<le> (57::nat)"

definition digitVal :: "char \<Rightarrow> nat" where
  "digitVal c = of_char c - 48"

text \<open>
  The digit loop of \<^verbatim>\<open>ParseUint\<close> for base 10; \<open>n\<close> is a uint64, so the addition
  wraps modulo \<open>2 ^ 64\<close>. Any byte that is no decimal digit is a syntax error (a letter
  is a digit of a larger base, an underscore is accepted for base 0 only).
\<close>

fun ParseUint_loop :: "nat \<Rightarrow> nat \<Rightarrow> string \<Rightarrow> nat \<times> NumError option" where
  "ParseUint_loop maxVal n [] = (n, None)"
| "ParseUint_loop maxVal n (c # s) =
     (if \<not> isDigit c then (0, Some ErrSyntax)
      else if n \<ge> maxUint64 div 10 + 1 then (maxVal, Some ErrRange)
      else (let n' = n * 10; n1 = (n' + digitVal c) mod 2 ^ 64 in
            if n1 < n' \<or> n1 > maxVal then (maxVal, Some ErrRange)
            else ParseUint_loop maxVal n1 s))"

definition ParseUint :: "string \<Rightarrow> nat \<Rightarrow> nat \<times> NumError option" where
  "ParseUint s bitSize =
     (if s = [] then (0, Some ErrSyntax)
      else (let bitSize = (if bitSize = 0 then IntSize else bitSize);
                maxVal = 2 ^ bitSize - 1
            in ParseUint_loop maxVal 0 s))"

definition ParseInt :: "string \<Rightarrow> nat \<Rightarrow> int \<times> NumError option" where
  "ParseInt s0 bitSize =
     (if s0 = [] then (0, Some ErrSyntax)
      else (let neg = (hd s0 = CHR ''-'');
                s = (if hd s0 = CHR ''+'' \<or> hd s0 = CHR ''-'' then tl s0 else s0);
                (un, err) = ParseUint s bitSize
            in if err \<noteq> None \<and> err \<noteq> Some ErrRange then (0, err)
               else (let bitSize = (if bitSize = 0 then IntSize else bitSize);
                         cutoff = (2::nat) ^ (bitSize - 1)
                     in if \<not> neg \<and> un \<ge> cutoff then (int cutoff - 1, Some ErrRange)
                        else if neg \<and> un > cutoff then (- int cutoff, Some ErrRange)
                        else (if neg then - int un else int un, None))))"

text \<open>
  The fast path of \<^verbatim>\<open>Atoi\<close>: \<^verbatim>\<open>ch -= '0'\<close> is byte arithmetic, so a byte below
  \<^verbatim>\<open>'0'\<close> wraps to a value above 9.
\<close>

fun Atoi_loop :: "nat \<Rightarrow> string \<Rightarrow> nat \<times> NumError option" where
  "Atoi_loop n [] = (n, None)"
| "Atoi_loop n (ch # s) =
     (let ch' = (of_char ch + 256 - 48) mod (256::nat) in
      if ch' > 9 then (0, Some ErrSyntax) else Atoi_loop (n * 10 + ch') s)"

definition Atoi :: "string \<Rightarrow> int \<times> NumError option" where
  "Atoi s0 =
     (let sLen = length s0 in
      if IntSize = 32 \<and> (0 < sLen \<and> sLen < 10) \<or> IntSize = 64 \<and> (0 < sLen \<and> sLen < 19) then
        (let s = (if hd s0 = CHR ''-'' \<or> hd s0 = CHR ''+'' then tl s0 else s0) in
         if (hd s0 = CHR ''-'' \<or> hd s0 = CHR ''+'') \<and> length s < 1 then (0, Some ErrSyntax)
         else (case Atoi_loop 0 s of
                 (n, Some e) \<Rightarrow> (0, Some e)
               | (n, None) \<Rightarrow> (if hd s0 = CHR ''-'' then - int n else int n, None)))
      else ParseInt s0 0)"

definition ParseBool :: "string \<Rightarrow> bool \<times> NumError option" where
  "ParseBool str =
     (if str \<in> set [''1'', ''t'', ''T'', ''TRUE'', ''true'', ''True''] then (True, None)
      else if str \<in> set [''0'', ''f'', ''F'', ''FALSE'', ''false'', ''False''] then (False, None)
      else (False, Some ErrSyntax))"

subsection \<open>mapstructure\<close>

text \<open>
  \<^verbatim>\<open>mapstructure.Decode(prop, &attr)\<close> with the default configuration, into a struct of
  four string fields. A nil input sets nothing. A map input is searched, for each field in
  declaration order, for the key equal to the field name and, failing that, for a key
  equal to it up to case (\<^verbatim>\<open>strings.EqualFold\<close>; the field names are ASCII letters);
  a nil datum sets nothing, a string datum sets the field, any other datum is an error,
  and the errors of all fields are collected. Any other input is an error.
\<close>

definition lower :: "char \<Rightarrow> char" where
  "lower c = (if (65::nat) \<le> of_char c \<and> of_char c \<le> (90::nat)
              then char_of (of_char c + (32::nat)) else c)"

definition EqualFold :: "string \<Rightarrow> string \<Rightarrow> bool" where
  "EqualFold s t \<longleftrightarrow> map lower s = map lower t"

definition MapIndex :: "(string \<times> any) list \<Rightarrow> string \<Rightarrow> any option" where
  "MapIndex m fieldName =
     (case map_of m fieldName of
        Some v \<Rightarrow> Some v
      | None \<Rightarrow> (case find (\<lambda>kv. EqualFold (fst kv) fieldName) m of
                   Some kv \<Rightarrow> Some (snd kv)
                 | None \<Rightarrow> None))"

definition decodeString :: "string \<Rightarrow> any \<Rightarrow> string \<Rightarrow> (string \<times> any) list \<times> string" where
  "decodeString name data val =
     (case data of
        VNil \<Rightarrow> ([], val)
      | VString s \<Rightarrow> ([], s)
      | _ \<Rightarrow> ([(name, data)], val))"

definition decodeField :: "(string \<times> any) list \<Rightarrow> string \<Rightarrow> string \<Rightarrow> (string \<times> any) list \<times> string" where
  "decodeField m fieldName val =
     (case MapIndex m fieldName of
        None \<Rightarrow> ([], val)
      | Some data \<Rightarrow> decodeString fieldName data val)"

section \<open>The schema and its attributes\<close>

record Attribute =
  ID :: string
  Title :: string
  Type :: string
  Format :: string

record JSONSchema =
  content :: "(string \<times> any) list"

definition decodeStructFromMap :: "(string \<times> any) list \<Rightarrow> Attribute \<Rightarrow> mapstructure_error + Attribute" where
  "decodeStructFromMap m a =
     (let (e1, v1) = decodeField m ''ID'' (ID a);
          (e2, v2) = decodeField m ''Title'' (Title a);
          (e3, v3) = decodeField m ''Type'' (Type a);
          (e4, v4) = decodeField m ''Format'' (Format a);
          errors = e1 @ e2 @ e3 @ e4
      in if errors \<noteq> [] then Inl (DecodeErrors errors)
         else Inr \<lparr>ID = v1, Title = v2, Type = v3, Format = v4\<rparr>)"

definition Decode :: "any \<Rightarrow> Attribute \<Rightarrow> mapstructure_error + Attribute" where
  "Decode input a =
     (case input of
        VNil \<Rightarrow> Inr a
      | VMap m \<Rightarrow> decodeStructFromMap m a
      | _ \<Rightarrow> Inl (ExpectedMap input))"

text \<open>The loop of \<^verbatim>\<open>AttributeNames\<close> over the innermost mapping; \<open>attrs\<close> is appended to.\<close>

fun AttributeNames_loop :: "Attribute list \<Rightarrow> (string \<times> any) list \<Rightarrow> error + Attribute list" where
  "AttributeNames_loop attrs [] = Inr attrs"
| "AttributeNames_loop attrs ((id', prop) # props) =
     (case Decode prop \<lparr>ID = [], Title = [], Type = [], Format = []\<rparr> of
        Inl err \<Rightarrow> Inl (ParsingAttribute prop err)
      | Inr attr \<Rightarrow> AttributeNames_loop (attrs @ [attr\<lparr>ID := id'\<rparr>]) props)"

definition AttributeNames :: "JSONSchema \<Rightarrow> error + Attribute list" where
  "AttributeNames s =
     (case assert_map (index_map (content s) ''properties'') of
        None \<Rightarrow> Inl (ErrorsNew ''missing properties field'')
      | Some props \<Rightarrow>
         (case assert_map (index_map props ''credentialSubject'') of
            None \<Rightarrow> Inl (ErrorsNew ''missing properties.credentialSubject field'')
          | Some credSubject \<Rightarrow>
             (case assert_map (index_map credSubject ''properties'') of
                None \<Rightarrow> Inl (ErrorsNew ''missing properties.credentialSubject.properties field'')
              | Some props' \<Rightarrow> AttributeNames_loop [] props')))"

section \<open>Validation and conversion of credential attributes\<close>

text \<open>
  Modelled from the spec: \<^verbatim>\<open>domain.CredentialAttributes\<close> is declared outside the sources
  at hand; the spec gives it a name and a dynamically typed value. The functions below are
  written over the extensible record, so whatever else the struct holds is carried along.
\<close>

record CredentialAttributes =
  Name :: string
  Value :: any

fun findIndex_from :: "int \<Rightarrow> Attribute list \<Rightarrow> string \<Rightarrow> int" where
  "findIndex_from i [] name = - 1"
| "findIndex_from i (attribute # attributes) name =
     (if ID attribute = name then i else findIndex_from (i + 1) attributes name)"

definition findIndexForSchemaAttribute :: "Attribute list \<Rightarrow> string \<Rightarrow> int" where
  "findIndexForSchemaAttribute attributes name = findIndex_from 0 attributes name"

definition validateCredentialLinkAttribute :: "Attribute \<Rightarrow> string \<Rightarrow> any \<Rightarrow> error + any" where
  "validateCredentialLinkAttribute schemaAttribute attributeLinkName attributeLinkValue =
     (if Type schemaAttribute = ''string'' then
        (case assert_string attributeLinkValue of
           None \<Rightarrow> Inl (CredentialLinkAttributeError
                         (''error converting the attribute: '' @ attributeLinkName))
         | Some s \<Rightarrow> Inr (VString s))
      else if Type schemaAttribute = ''integer'' then
        (case assert_string attributeLinkValue of
           None \<Rightarrow> Inl (CredentialLinkAttributeError
                         (''error converting the attribute: '' @ attributeLinkName))
         | Some s \<Rightarrow>
            (case Atoi s of
               (newValue, Some err) \<Rightarrow> Inl (CredentialLinkAttributeError
                   (''error converting the attribute: '' @ attributeLinkName @ ''. Must be an integer''))
             | (newValue, None) \<Rightarrow> Inr (VInt newValue)))
      else if Type schemaAttribute = ''boolean'' then
        (case assert_string attributeLinkValue of
           None \<Rightarrow> Inl (CredentialLinkAttributeError
                         (''error converting the attribute: '' @ attributeLinkName))
         | Some s \<Rightarrow>
            (case ParseBool s of
               (newValue, Some err) \<Rightarrow> Inl (CredentialLinkAttributeError
                   (''error converting the attribute: '' @ attributeLinkName @ ''. Must be a boolean''))
             | (newValue, None) \<Rightarrow> Inr (VBool newValue)))
      else Inl (CredentialLinkAttributeError
                 (''error converting the attribute: '' @ attributeLinkName @ ''. type not supported'')))"

text \<open>
  The index expression \<^verbatim>\<open>s[index]\<close> and the slicing in \<^verbatim>\<open>removeIndex\<close> panic outside
  the range of the slice; \<^verbatim>\<open>append(s[:index], s[index+1:]...)\<close> is \<open>s\<close> without its element
  at \<open>index\<close>.
\<close>

definition index_slice :: "'a list \<Rightarrow> int \<Rightarrow> panic + 'a" where
  "index_slice s index =
     (if 0 \<le> index \<and> index < int (length s) then Inr (s ! nat index)
      else Inl (IndexOutOfRange index (length s)))"

definition removeIndex :: "'a list \<Rightarrow> int \<Rightarrow> panic + 'a list" where
  "removeIndex s index =
     (if 0 \<le> index \<and> index < int (length s)
      then Inr (take (nat index) s @ drop (nat index + 1) s)
      else Inl (SliceBoundsOutOfRange index (length s)))"

text \<open>
  The loop of \<^verbatim>\<open>ValidateAndConvert\<close>. The caller's slice is written in place, so the
  result is a pair: the contents of that slice when the loop ends (however it ends), and
  the outcome; on normal termination the outcome holds the descriptors left over.
\<close>

fun ValidateAndConvert_loop :: "Attribute list \<Rightarrow> 'm CredentialAttributes_scheme list
    \<Rightarrow> 'm CredentialAttributes_scheme list \<times> Attribute list outcome" where
  "ValidateAndConvert_loop schemaAttributes [] = ([], Returns schemaAttributes)"
| "ValidateAndConvert_loop schemaAttributes (attributeLink # rest) =
     (let index = findIndexForSchemaAttribute schemaAttributes (Name attributeLink) in
      case index_slice schemaAttributes index of
        Inl p \<Rightarrow> (attributeLink # rest, Panics p)
      | Inr schemaAttribute \<Rightarrow>
         (case validateCredentialLinkAttribute schemaAttribute (Name attributeLink) (Value attributeLink) of
            Inl err \<Rightarrow> (attributeLink # rest, Fails err)
          | Inr attributeLinkValueConverted \<Rightarrow>
             (case removeIndex schemaAttributes index of
                Inl p \<Rightarrow> (attributeLink\<lparr>Value := attributeLinkValueConverted\<rparr> # rest, Panics p)
              | Inr schemaAttributes' \<Rightarrow>
                 (case ValidateAndConvert_loop schemaAttributes' rest of
                    (mem, r) \<Rightarrow> (attributeLink\<lparr>Value := attributeLinkValueConverted\<rparr> # mem, r)))))"

text \<open>
  \<^verbatim>\<open>ValidateAndConvert\<close>: again the contents of the caller's slice when the call ends,
  and the outcome; the slice returned on success is the caller's slice.
\<close>

definition ValidateAndConvert :: "JSONSchema \<Rightarrow> 'm CredentialAttributes_scheme list
    \<Rightarrow> 'm CredentialAttributes_scheme list \<times> 'm CredentialAttributes_scheme list outcome" where
  "ValidateAndConvert s credentialAttributes =
     (case AttributeNames s of
        Inl err \<Rightarrow> (credentialAttributes, Fails ErrProcessSchema)
      | Inr schemaAttributes \<Rightarrow>
         (case ValidateAndConvert_loop schemaAttributes credentialAttributes of
            (mem, Panics p) \<Rightarrow> (mem, Panics p)
          | (mem, Fails err) \<Rightarrow> (mem, Fails err)
          | (mem, Returns schemaAttributes') \<Rightarrow>
             (if length schemaAttributes' \<noteq> 1
              then (mem, Fails (CredentialLinkAttributeError ''the number of attributes is not valid''))
              else (mem, Returns mem))))"

section \<open>The vocabulary of the specification\<close>

text \<open>
  The specification names error kinds; the code tells them apart by their messages.
  These definitions give each kind of the specification the error value the code builds.
\<close>

definition SchemaStructureError :: "string \<Rightarrow> error" where
  "SchemaStructureError segment = ErrorsNew (''missing '' @ segment @ '' field'')"

definition TypeMismatchError :: "string \<Rightarrow> error" where
  "TypeMismatchError name =
     CredentialLinkAttributeError (''error converting the attribute: '' @ name)"

definition IntegerParseError :: "string \<Rightarrow> error" where
  "IntegerParseError name =
     CredentialLinkAttributeError (''error converting the attribute: '' @ name @ ''. Must be an integer'')"

definition BooleanParseError :: "string \<Rightarrow> error" where
  "BooleanParseError name =
     CredentialLinkAttributeError (''error converting the attribute: '' @ name @ ''. Must be a boolean'')"

definition UnsupportedTypeError :: "string \<Rightarrow> error" where
  "UnsupportedTypeError name =
     CredentialLinkAttributeError (''error converting the attribute: '' @ name @ ''. type not supported'')"

definition CountMismatchError :: error where
  "CountMismatchError = CredentialLinkAttributeError ''the number of attributes is not valid''"

text \<open>A level of the document is missing or holds something that is no mapping.\<close>

definition is_mapping :: "any \<Rightarrow> bool" where
  "is_mapping v = (case v of VMap m \<Rightarrow> True | _ \<Rightarrow> False)"

definition missing_or_not_mapping :: "(string \<times> any) list \<Rightarrow> string \<Rightarrow> bool" where
  "missing_or_not_mapping m k = (case map_of m k of None \<Rightarrow> True | Some v \<Rightarrow> \<not> is_mapping v)"

text \<open>
  A document with the three levels in place around the innermost mapping \<open>props\<close>, an
  attribute struct as Go initialises it, and the examples of the specification.
\<close>

definition schema_of :: "(string \<times> any) list \<Rightarrow> JSONSchema" where
  "schema_of props =
     \<lparr>content = [(''properties'', VMap [(''credentialSubject'', VMap [(''properties'', VMap props)])])]\<rparr>"

definition zeroAttribute :: Attribute where
  "zeroAttribute = \<lparr>ID = [], Title = [], Type = [], Format = []\<rparr>"

definition decodable :: "any \<Rightarrow> bool" where
  "decodable prop \<longleftrightarrow> \<not> isl (Decode prop zeroAttribute)"

definition example_schema :: JSONSchema where
  "example_schema = schema_of
     [(''age'', VMap [(''type'', VString ''integer'')]),
      (''name'', VMap [(''type'', VString ''string''), (''title'', VString ''Name'')]),
      (''id'', VMap [(''type'', VString ''string''), (''id'', VString ''subject'')])]"

text \<open>
  The boolean literals of the standard parser, and what the specification calls a base-10
  integer literal: an optional sign and at least one decimal digit, read as a number.
\<close>

definition boolean_literal :: "string \<Rightarrow> bool option" where
  "boolean_literal s =
     (if s \<in> {''1'', ''t'', ''T'', ''TRUE'', ''true'', ''True''} then Some True
      else if s \<in> {''0'', ''f'', ''F'', ''FALSE'', ''false'', ''False''} then Some False
      else None)"

definition is_decimal_digit :: "char \<Rightarrow> bool" where
  "is_decimal_digit c \<longleftrightarrow> c \<in> set ''0123456789''"

definition decimal_digit_value :: "char \<Rightarrow> nat" where
  "decimal_digit_value c = length (takeWhile (\<lambda>d. d \<noteq> c) ''0123456789'')"

fun decimal_value :: "nat \<Rightarrow> string \<Rightarrow> nat" where
  "decimal_value n [] = n"
| "decimal_value n (c # s) = decimal_value (n * 10 + decimal_digit_value c) s"

definition is_integer_literal :: "string \<Rightarrow> bool" where
  "is_integer_literal s =
     (case s of
        [] \<Rightarrow> False
      | c # ds \<Rightarrow> if c = CHR ''+'' \<or> c = CHR ''-'' then ds \<noteq> [] \<and> list_all is_decimal_digit ds
                 else list_all is_decimal_digit s)"

definition integer_literal_value :: "string \<Rightarrow> int" where
  "integer_literal_value s =
     (case s of
        [] \<Rightarrow> 0
      | c # ds \<Rightarrow> if c = CHR ''-'' then - int (decimal_value 0 ds)
                 else if c = CHR ''+'' then int (decimal_value 0 ds)
                 else int (decimal_value 0 s))"

text \<open>The values of the type \<^verbatim>\<open>int\<close>.\<close>

definition fits_int :: "int \<Rightarrow> bool" where
  "fits_int v \<longleftrightarrow> - (2 ^ (IntSize - 1)) \<le> v \<and> v < 2 ^ (IntSize - 1)"

text \<open>The descriptors of the example schema and the attributes a caller supplies.\<close>

definition example_descriptors :: "Attribute list" where
  "example_descriptors =
     [\<lparr>ID = ''age'', Title = [], Type = ''integer'', Format = []\<rparr>,
      \<lparr>ID = ''name'', Title = ''Name'', Type = ''string'', Format = []\<rparr>,
      \<lparr>ID = ''id'', Title = [], Type = ''string'', Format = []\<rparr>]"

definition example_supplied :: "CredentialAttributes list" where
  "example_supplied =
     [\<lparr>Name = ''age'', Value = VString ''42''\<rparr>, \<lparr>Name = ''name'', Value = VString ''alice''\<rparr>]"

definition example_converted :: "CredentialAttributes list" where
  "example_converted =
     [\<lparr>Name = ''age'', Value = VInt 42\<rparr>, \<lparr>Name = ''name'', Value = VString ''alice''\<rparr>]"

section \<open>Navigation and slices\<close>

lemma assert_map_None: "missing_or_not_mapping m k \<Longrightarrow> assert_map (index_map m k) = None"
  by (auto simp: missing_or_not_mapping_def assert_map_def index_map_def is_mapping_def
      split: option.splits any.splits)

lemma assert_map_Some: "map_of m k = Some (VMap m') \<Longrightarrow> assert_map (index_map m k) = Some m'"
  by (simp add: assert_map_def index_map_def)

lemma AttributeNames_levels:
  "map_of (content s) ''properties'' = Some (VMap props) \<Longrightarrow>
   map_of props ''credentialSubject'' = Some (VMap credSubject) \<Longrightarrow>
   map_of credSubject ''properties'' = Some (VMap inner) \<Longrightarrow>
   AttributeNames s = AttributeNames_loop [] inner"
  by (simp add: AttributeNames_def assert_map_Some)

lemma AttributeNames_schema_of: "AttributeNames (schema_of inner) = AttributeNames_loop [] inner"
  by (simp add: AttributeNames_def schema_of_def assert_map_def index_map_def)

lemma AttributeNames_example: "AttributeNames example_schema = Inr example_descriptors"
  by code_simp

lemma removeIndex_length: "removeIndex s i = Inr s' \<Longrightarrow> length s = Suc (length s')"
  by (auto simp: removeIndex_def split: if_splits)

lemma removeIndex_after_index: "index_slice s i = Inr x \<Longrightarrow> \<exists>s'. removeIndex s i = Inr s'"
  by (auto simp: removeIndex_def index_slice_def split: if_splits)

lemma findIndex_from_absent: "name \<notin> ID ` set xs \<Longrightarrow> findIndex_from i xs name = - 1"
  by (induction xs arbitrary: i) auto

lemma findIndex_from_present:
  "name \<in> ID ` set xs \<Longrightarrow>
     \<exists>j<length xs. findIndex_from i xs name = i + int j \<and> ID (xs ! j) = name"
proof (induction xs arbitrary: i)
  case Nil then show ?case by simp
next
  case (Cons x xs)
  show ?case
  proof (cases "ID x = name")
    case True then show ?thesis by auto
  next
    case False
    with Cons.prems have "name \<in> ID ` set xs" by auto
    from Cons.IH [OF this, of "i + 1"] obtain j where
      "j < length xs" "findIndex_from (i + 1) xs name = i + 1 + int j" "ID (xs ! j) = name"
      by blast
    with False have "Suc j < length (x # xs) \<and>
        findIndex_from i (x # xs) name = i + int (Suc j) \<and> ID ((x # xs) ! Suc j) = name"
      by simp
    then show ?thesis by blast
  qed
qed

text \<open>A name that some descriptor carries is found, and the descriptor read there has it.\<close>

lemma index_slice_found:
  assumes "name \<in> ID ` set xs"
  shows "\<exists>d. index_slice xs (findIndexForSchemaAttribute xs name) = Inr d \<and> d \<in> set xs \<and> ID d = name"
proof -
  from findIndex_from_present [OF assms, of 0] obtain j where
    "j < length xs" "findIndex_from 0 xs name = int j" "ID (xs ! j) = name" by auto
  then show ?thesis
    by (simp add: index_slice_def findIndexForSchemaAttribute_def)
qed

section \<open>The conversion loop\<close>

lemma loop_length:
  "ValidateAndConvert_loop sa attrs = (mem, Returns rest) \<Longrightarrow> length sa = length attrs + length rest"
proof (induction attrs arbitrary: sa mem)
  case Nil then show ?case by simp
next
  case (Cons a attrs)
  then show ?case
    by (auto simp: Let_def split: sum.splits prod.splits dest!: removeIndex_length)
qed

lemma loop_frame:
  "ValidateAndConvert_loop sa attrs = (mem, Returns rest) \<Longrightarrow>
     list_all2 (\<lambda>a b. \<exists>v. b = a\<lparr>Value := v\<rparr>) attrs mem"
proof (induction attrs arbitrary: sa mem)
  case Nil then show ?case by simp
next
  case (Cons a attrs)
  then show ?case
    by (auto simp: Let_def split: sum.splits prod.splits)
qed

text \<open>
  Each attribute the loop gets through is written back with the value that the conversion
  gives for a descriptor of the working sequence that carries its name.
\<close>

lemma index_slice_matches:
  assumes "index_slice xs (findIndexForSchemaAttribute xs name) = Inr d"
  shows "d \<in> set xs \<and> ID d = name"
proof (cases "name \<in> ID ` set xs")
  case True
  from index_slice_found [OF True] assms show ?thesis by auto
next
  case False
  then have "findIndexForSchemaAttribute xs name = - 1"
    by (simp add: findIndexForSchemaAttribute_def findIndex_from_absent)
  with assms show ?thesis by (simp add: index_slice_def)
qed

lemma removeIndex_subset: "removeIndex s i = Inr s' \<Longrightarrow> set s' \<subseteq> set s"
  by (auto simp: removeIndex_def split: if_splits dest: in_set_takeD in_set_dropD)

lemma loop_converted:
  "ValidateAndConvert_loop sa attrs = (mem, Returns rest) \<Longrightarrow>
     list_all2 (\<lambda>a b. \<exists>d\<in>set sa. ID d = Name a \<and>
        validateCredentialLinkAttribute d (Name a) (Value a) = Inr (Value b) \<and>
        b = a\<lparr>Value := Value b\<rparr>) attrs mem"
proof (induction attrs arbitrary: sa mem)
  case Nil then show ?case by simp
next
  case (Cons a attrs)
  let ?P = "\<lambda>sa a b. \<exists>d\<in>set sa. ID d = Name a \<and>
        validateCredentialLinkAttribute d (Name a) (Value a) = Inr (Value b) \<and>
        b = a\<lparr>Value := Value b\<rparr>"
  from Cons.prems obtain d where d: "index_slice sa (findIndexForSchemaAttribute sa (Name a)) = Inr d"
    by (cases "index_slice sa (findIndexForSchemaAttribute sa (Name a))") (simp_all add: Let_def)
  from Cons.prems d obtain v where v: "validateCredentialLinkAttribute d (Name a) (Value a) = Inr v"
    by (cases "validateCredentialLinkAttribute d (Name a) (Value a)") (simp_all add: Let_def)
  from Cons.prems d v obtain sa' where sa': "removeIndex sa (findIndexForSchemaAttribute sa (Name a)) = Inr sa'"
    by (cases "removeIndex sa (findIndexForSchemaAttribute sa (Name a))") (simp_all add: Let_def)
  obtain mem' r where l: "ValidateAndConvert_loop sa' attrs = (mem', r)"
    by (cases "ValidateAndConvert_loop sa' attrs")
  from Cons.prems d v sa' l have r: "r = Returns rest" and m: "mem = a\<lparr>Value := v\<rparr> # mem'"
    by (simp_all add: Let_def)
  from Cons.IH [of sa' mem'] l r have "list_all2 (?P sa') attrs mem'" by simp
  moreover from removeIndex_subset [OF sa'] have "\<And>a b. ?P sa' a b \<Longrightarrow> ?P sa a b" by blast
  ultimately have tl: "list_all2 (?P sa) attrs mem'"
    by (rule list_all2_mono)
  from index_slice_matches [OF d] v have "?P sa a (a\<lparr>Value := v\<rparr>)" by auto
  with tl m show ?case by simp
qed

text \<open>The loop over \<open>pre @ xs\<close>, when it gets through \<open>pre\<close>, goes on with \<open>xs\<close>.\<close>

lemma loop_append:
  "ValidateAndConvert_loop sa pre = (mem, Returns rest) \<Longrightarrow>
   ValidateAndConvert_loop sa (pre @ xs) =
     (case ValidateAndConvert_loop rest xs of (mem', r) \<Rightarrow> (mem @ mem', r))"
proof (induction pre arbitrary: sa mem)
  case Nil then show ?case by (simp split: prod.splits)
next
  case (Cons a pre)
  then show ?case
    by (auto simp: Let_def split: sum.splits prod.splits)
qed

lemma loop_example:
  "ValidateAndConvert_loop example_descriptors example_supplied =
     (example_converted, Returns [\<lparr>ID = ''id'', Title = [], Type = ''string'', Format = []\<rparr>])"
  by code_simp

lemma loop_example_all:
  "ValidateAndConvert_loop example_descriptors
     (example_supplied @ [\<lparr>Name = ''id'', Value = VString ''x''\<rparr>]) =
     (example_converted @ [\<lparr>Name = ''id'', Value = VString ''x''\<rparr>], Returns [])"
  by code_simp

lemma loop_example_age:
  "ValidateAndConvert_loop example_descriptors [\<lparr>Name = ''age'', Value = VString ''42''\<rparr>] =
     ([\<lparr>Name = ''age'', Value = VInt 42\<rparr>],
      Returns [\<lparr>ID = ''name'', Title = ''Name'', Type = ''string'', Format = []\<rparr>,
               \<lparr>ID = ''id'', Title = [], Type = ''string'', Format = []\<rparr>])"
  by code_simp

section \<open>Decoding the sub-mappings\<close>

lemma decodable_Inr: "decodable prop \<Longrightarrow> \<exists>a. Decode prop zeroAttribute = Inr a"
  by (cases "Decode prop zeroAttribute") (simp_all add: decodable_def)

lemma AttributeNames_loop_decodable:
  "\<forall>kp\<in>set inner. decodable (snd kp) \<Longrightarrow>
     \<exists>new. AttributeNames_loop attrs inner = Inr (attrs @ new) \<and>
       list_all2 (\<lambda>kp attr. \<exists>a. Decode (snd kp) zeroAttribute = Inr a \<and> attr = a\<lparr>ID := fst kp\<rparr>)
         inner new"
proof (induction inner arbitrary: attrs)
  case Nil then show ?case by simp
next
  case (Cons kp inner)
  obtain k p where kp: "kp = (k, p)" by (cases kp)
  from Cons.prems kp obtain a where a: "Decode p zeroAttribute = Inr a"
    using decodable_Inr by auto
  from Cons.prems have "\<forall>kp\<in>set inner. decodable (snd kp)" by simp
  from Cons.IH [OF this, of "attrs @ [a\<lparr>ID := k\<rparr>]"] obtain new where
    n: "AttributeNames_loop (attrs @ [a\<lparr>ID := k\<rparr>]) inner = Inr ((attrs @ [a\<lparr>ID := k\<rparr>]) @ new)"
    and l: "list_all2 (\<lambda>kp attr. \<exists>a. Decode (snd kp) zeroAttribute = Inr a \<and> attr = a\<lparr>ID := fst kp\<rparr>)
         inner new"
    by blast
  from a have a': "Decode p \<lparr>ID = [], Title = [], Type = [], Format = []\<rparr> = Inr a"
    by (simp add: zeroAttribute_def)
  have "AttributeNames_loop attrs (kp # inner) = Inr (attrs @ (a\<lparr>ID := k\<rparr> # new))"
    using n a' kp by simp
  moreover have "list_all2 (\<lambda>kp attr. \<exists>a. Decode (snd kp) zeroAttribute = Inr a \<and> attr = a\<lparr>ID := fst kp\<rparr>)
         (kp # inner) (a\<lparr>ID := k\<rparr> # new)"
    using l a kp by simp
  ultimately show ?case by blast
qed

lemma decodeString_wrong:
  "v \<noteq> VNil \<Longrightarrow> assert_string v = None \<Longrightarrow> decodeString f v val = ([(f, v)], val)"
  by (cases v) (simp_all add: decodeString_def assert_string_def)

lemma decodeField_wrong:
  "MapIndex m f = Some v \<Longrightarrow> v \<noteq> VNil \<Longrightarrow> assert_string v = None \<Longrightarrow>
     decodeField m f val = ([(f, v)], val)"
  by (simp add: decodeField_def decodeString_wrong)

lemma decodeStructFromMap_wrong:
  assumes "f \<in> {''ID'', ''Title'', ''Type'', ''Format''}"
    and "MapIndex m f = Some v" and "v \<noteq> VNil" and "assert_string v = None"
  shows "\<exists>errs. decodeStructFromMap m a = Inl (DecodeErrors errs) \<and> (f, v) \<in> set errs"
proof -
  obtain e1 v1 where 1: "decodeField m ''ID'' (ID a) = (e1, v1)"
    by (cases "decodeField m ''ID'' (ID a)")
  obtain e2 v2 where 2: "decodeField m ''Title'' (Title a) = (e2, v2)"
    by (cases "decodeField m ''Title'' (Title a)")
  obtain e3 v3 where 3: "decodeField m ''Type'' (Type a) = (e3, v3)"
    by (cases "decodeField m ''Type'' (Type a)")
  obtain e4 v4 where 4: "decodeField m ''Format'' (Format a) = (e4, v4)"
    by (cases "decodeField m ''Format'' (Format a)")
  from assms(1) 1 2 3 4 decodeField_wrong [OF assms(2-4)]
  have mem: "(f, v) \<in> set (e1 @ e2 @ e3 @ e4)" by auto
  then have "e1 @ e2 @ e3 @ e4 \<noteq> []" by auto
  then have "decodeStructFromMap m a = Inl (DecodeErrors (e1 @ e2 @ e3 @ e4))"
    by (simp add: decodeStructFromMap_def 1 2 3 4)
  with mem show ?thesis by blast
qed

lemma AttributeNames_loop_prefix:
  "\<forall>kp\<in>set before. decodable (snd kp) \<Longrightarrow>
     \<exists>new. AttributeNames_loop attrs (before @ rest) = AttributeNames_loop (attrs @ new) rest"
proof (induction before arbitrary: attrs)
  case Nil
  have "AttributeNames_loop attrs ([] @ rest) = AttributeNames_loop (attrs @ []) rest" by simp
  then show ?case by blast
next
  case (Cons kp before)
  obtain k p where kp: "kp = (k, p)" by (cases kp)
  from Cons.prems kp obtain a where "Decode p zeroAttribute = Inr a"
    using decodable_Inr by auto
  then have a: "Decode p \<lparr>ID = [], Title = [], Type = [], Format = []\<rparr> = Inr a"
    by (simp add: zeroAttribute_def)
  from Cons.prems have "\<forall>kp\<in>set before. decodable (snd kp)" by simp
  from Cons.IH [OF this, of "attrs @ [a\<lparr>ID := k\<rparr>]"] obtain new where
    "AttributeNames_loop (attrs @ [a\<lparr>ID := k\<rparr>]) (before @ rest) =
       AttributeNames_loop ((attrs @ [a\<lparr>ID := k\<rparr>]) @ new) rest"
    by blast
  with a kp have "AttributeNames_loop attrs ((kp # before) @ rest) =
       AttributeNames_loop (attrs @ (a\<lparr>ID := k\<rparr> # new)) rest"
    by simp
  then show ?case by blast
qed

lemma AttributeNames_loop_fails:
  "Decode p zeroAttribute = Inl err \<Longrightarrow>
     AttributeNames_loop attrs ((k, p) # rest) = Inl (ParsingAttribute p err)"
  by (simp add: zeroAttribute_def)

lemma AttributeNames_loop_undecodable:
  "\<exists>kp\<in>set inner. \<not> decodable (snd kp) \<Longrightarrow>
     \<exists>p err. AttributeNames_loop attrs inner = Inl (ParsingAttribute p err) \<and>
       p \<in> snd ` set inner \<and> Decode p zeroAttribute = Inl err"
proof (induction inner arbitrary: attrs)
  case Nil then show ?case by simp
next
  case (Cons kp inner)
  obtain k p where kp: "kp = (k, p)" by (cases kp)
  show ?case
  proof (cases "Decode p zeroAttribute")
    case (Inl err)
    from AttributeNames_loop_fails [OF this, of attrs k inner] Inl kp show ?thesis
      by auto
  next
    case (Inr a)
    then have "decodable p" by (simp add: decodable_def)
    with Cons.prems kp have "\<exists>kp\<in>set inner. \<not> decodable (snd kp)" by auto
    from Cons.IH [OF this, of "attrs @ [a\<lparr>ID := k\<rparr>]"] obtain q err where
      "AttributeNames_loop (attrs @ [a\<lparr>ID := k\<rparr>]) inner = Inl (ParsingAttribute q err)"
      "q \<in> snd ` set inner" "Decode q zeroAttribute = Inl err"
      by blast
    moreover from Inr have "Decode p \<lparr>ID = [], Title = [], Type = [], Format = []\<rparr> = Inr a"
      by (simp add: zeroAttribute_def)
    ultimately have "AttributeNames_loop attrs (kp # inner) = Inl (ParsingAttribute q err) \<and>
       q \<in> snd ` set (kp # inner) \<and> Decode q zeroAttribute = Inl err"
      using kp by simp
    then show ?thesis by blast
  qed
qed

text \<open>
  A sub-mapping with a field whose value is neither a string nor nil makes the extraction
  fail, with the error of the first sub-mapping in iteration order that does not decode.
\<close>

lemma AttributeNames_malformed_sub_mapping:
  assumes "map_of (content s) ''properties'' = Some (VMap props)"
    and "map_of props ''credentialSubject'' = Some (VMap credSubject)"
    and "map_of credSubject ''properties'' = Some (VMap (before @ (k, VMap m) # after))"
    and "fieldName \<in> {''ID'', ''Title'', ''Type'', ''Format''}"
    and "MapIndex m fieldName = Some v" and "v \<noteq> VNil" and "assert_string v = None"
  shows "(\<exists>p err. AttributeNames s = Inl (ParsingAttribute p err) \<and>
            p \<in> snd ` set (before @ (k, VMap m) # after) \<and> Decode p zeroAttribute = Inl err) \<and>
         ((\<forall>kp\<in>set before. decodable (snd kp)) \<longrightarrow>
            (\<exists>errs. AttributeNames s = Inl (ParsingAttribute (VMap m) (DecodeErrors errs)) \<and>
               (fieldName, v) \<in> set errs))"
proof -
  from decodeStructFromMap_wrong [OF assms(4-7), of zeroAttribute] obtain errs where
    d: "Decode (VMap m) zeroAttribute = Inl (DecodeErrors errs)" and e: "(fieldName, v) \<in> set errs"
    by (auto simp: Decode_def)
  from d have "\<not> decodable (VMap m)" by (simp add: decodable_def)
  then have "\<exists>kp\<in>set (before @ (k, VMap m) # after). \<not> decodable (snd kp)" by simp
  from AttributeNames_loop_undecodable [OF this, of "[]"] AttributeNames_levels [OF assms(1-3)]
  have first: "\<exists>p err. AttributeNames s = Inl (ParsingAttribute p err) \<and>
            p \<in> snd ` set (before @ (k, VMap m) # after) \<and> Decode p zeroAttribute = Inl err"
    by simp
  have second: "\<exists>errs. AttributeNames s = Inl (ParsingAttribute (VMap m) (DecodeErrors errs)) \<and>
               (fieldName, v) \<in> set errs" if "\<forall>kp\<in>set before. decodable (snd kp)"
  proof -
    from AttributeNames_loop_prefix [OF that, of "[]" "(k, VMap m) # after"] obtain new where
      "AttributeNames_loop [] (before @ (k, VMap m) # after) =
         AttributeNames_loop ([] @ new) ((k, VMap m) # after)"
      by blast
    with AttributeNames_loop_fails [OF d] AttributeNames_levels [OF assms(1-3)]
    have "AttributeNames s = Inl (ParsingAttribute (VMap m) (DecodeErrors errs))" by simp
    with e show ?thesis by blast
  qed
  from first second show ?thesis by blast
qed

lemma AttributeNames_malformed_sub_mapping_example:
  "\<exists>errs. AttributeNames (schema_of
       [(''name'', VMap [(''type'', VString ''string'')]),
        (''age'', VMap [(''title'', VString ''Age''), (''type'', VSlice [VString ''integer'', VString ''null''])])]) =
       Inl (ParsingAttribute
              (VMap [(''title'', VString ''Age''), (''type'', VSlice [VString ''integer'', VString ''null''])])
              (DecodeErrors errs)) \<and>
     (''Type'', VSlice [VString ''integer'', VString ''null'']) \<in> set errs"
proof -
  let ?bad = "[(''title'', VString ''Age''), (''type'', VSlice [VString ''integer'', VString ''null''])]"
  let ?before = "[(''name'', VMap [(''type'', VString ''string'')])]"
  let ?s = "schema_of (?before @ (''age'', VMap ?bad) # [])"
  have h1: "map_of (content ?s) ''properties'' =
      Some (VMap [(''credentialSubject'', VMap [(''properties'', VMap (?before @ (''age'', VMap ?bad) # []))])])"
    by (simp add: schema_of_def)
  have h2: "map_of [(''credentialSubject'', VMap [(''properties'', VMap (?before @ (''age'', VMap ?bad) # []))])]
      ''credentialSubject'' = Some (VMap [(''properties'', VMap (?before @ (''age'', VMap ?bad) # []))])"
    by simp
  have h3: "map_of [(''properties'', VMap (?before @ (''age'', VMap ?bad) # []))] ''properties'' =
      Some (VMap (?before @ (''age'', VMap ?bad) # []))"
    by simp
  have h4: "''Type'' \<in> {''ID'', ''Title'', ''Type'', ''Format''}" by simp
  have h5: "MapIndex ?bad ''Type'' = Some (VSlice [VString ''integer'', VString ''null''])"
    by code_simp
  have h6: "VSlice [VString ''integer'', VString ''null''] \<noteq> VNil" by simp
  have h7: "assert_string (VSlice [VString ''integer'', VString ''null'']) = None"
    by (simp add: assert_string_def)
  have h8: "\<forall>kp\<in>set ?before. decodable (snd kp)" by code_simp
  from AttributeNames_malformed_sub_mapping [OF h1 h2 h3 h4 h5 h6 h7] h8 show ?thesis by simp
qed

section \<open>The standard parsers\<close>

lemma is_decimal_digit_cases:
  "is_decimal_digit c \<longleftrightarrow> c = CHR ''0'' \<or> c = CHR ''1'' \<or> c = CHR ''2'' \<or> c = CHR ''3'' \<or> c = CHR ''4'' \<or>
     c = CHR ''5'' \<or> c = CHR ''6'' \<or> c = CHR ''7'' \<or> c = CHR ''8'' \<or> c = CHR ''9''"
  by (auto simp: is_decimal_digit_def)

lemma digit_of_char:
  assumes "is_decimal_digit c"
  shows "(of_char c :: nat) = 48 + decimal_digit_value c \<and> decimal_digit_value c \<le> 9"
  using assms unfolding is_decimal_digit_cases
  by (elim disjE) (simp_all add: decimal_digit_value_def)

lemma of_char_nat_eqD: "(of_char c :: nat) = of_char d \<Longrightarrow> c = d"
  by simp

lemma of_char_digit:
  assumes "(48::nat) \<le> of_char c" and "of_char c \<le> (57::nat)"
  shows "is_decimal_digit c"
proof -
  define n :: nat where "n = of_char c"
  from assms have "n = 48 \<or> n = 49 \<or> n = 50 \<or> n = 51 \<or> n = 52 \<or> n = 53 \<or> n = 54 \<or>
      n = 55 \<or> n = 56 \<or> n = 57"
    unfolding n_def by arith
  then have "n = of_char CHR ''0'' \<or> n = of_char CHR ''1'' \<or> n = of_char CHR ''2'' \<or>
      n = of_char CHR ''3'' \<or> n = of_char CHR ''4'' \<or> n = of_char CHR ''5'' \<or>
      n = of_char CHR ''6'' \<or> n = of_char CHR ''7'' \<or> n = of_char CHR ''8'' \<or>
      n = of_char CHR ''9''"
    by simp
  then show ?thesis unfolding n_def is_decimal_digit_cases
    by (blast dest: of_char_nat_eqD)
qed

lemma isDigit_iff: "isDigit c \<longleftrightarrow> is_decimal_digit c"
  using of_char_digit [of c] digit_of_char [of c]
  by (auto simp: isDigit_def)

lemma digitVal_eq: "is_decimal_digit c \<Longrightarrow> digitVal c = decimal_digit_value c"
  using digit_of_char [of c] by (simp add: digitVal_def)

lemma byte_sub_shift: "(y + 48 + 256 - 48) mod (256::nat) = y mod 256"
  by simp

lemma byte_sub_in: 
  assumes "48 \<le> x" and "x \<le> 57" 
  shows "(x + 256 - 48) mod (256::nat) = x - 48"
proof -
  define y where "y = x - 48"
  from assms have x: "x = y + 48" and y: "y < 256" unfolding y_def by linarith+
  have "(x + 256 - 48) mod 256 = y mod 256" unfolding x by (rule byte_sub_shift)
  with y show ?thesis by (simp add: y_def)
qed

lemma byte_sub_out:
  assumes "x < 256" and "\<not> (48 \<le> x \<and> x \<le> 57)"
  shows "(x + 256 - 48) mod (256::nat) > 9"
proof (cases "x < 48")
  case True
  then have "x + 256 - 48 < 256" by linarith
  then have "(x + 256 - 48) mod 256 = x + 256 - 48" by (rule mod_less)
  then show ?thesis by linarith
next
  case False
  with assms have gt: "57 < x" by linarith
  define y where "y = x - 48"
  from gt assms(1) have x: "x = y + 48" and y: "y < 256" "9 < y" unfolding y_def by linarith+
  have "(x + 256 - 48) mod 256 = y mod 256" unfolding x by (rule byte_sub_shift)
  with y show ?thesis by simp
qed
lemma byte_sub_digit:
  "is_decimal_digit c \<Longrightarrow> (of_char c + 256 - 48) mod (256::nat) = decimal_digit_value c"
  using digit_of_char [of c] byte_sub_in [of "of_char c"] by simp

lemma byte_sub_no_digit:
  assumes "\<not> is_decimal_digit c"
  shows "(of_char c + 256 - 48) mod (256::nat) > 9"
proof -
  have lt: "(of_char c :: nat) < 256" by simp
  from assms of_char_digit [of c] have "\<not> ((48::nat) \<le> of_char c \<and> of_char c \<le> (57::nat))"
    by blast
  with lt show ?thesis by (rule byte_sub_out)
qed

lemma Atoi_loop_spec:
  "Atoi_loop n s = (if list_all is_decimal_digit s then (decimal_value n s, None) else (0, Some ErrSyntax))"
proof (induction s arbitrary: n)
  case Nil then show ?case by simp
next
  case (Cons c s)
  show ?case
  proof (cases "is_decimal_digit c")
    case True
    with Cons.IH [of "n * 10 + decimal_digit_value c"] byte_sub_digit [OF True] digit_of_char [OF True]
    show ?thesis by (simp add: Let_def)
  next
    case False
    with byte_sub_no_digit [OF False] show ?thesis by (simp add: Let_def)
  qed
qed

lemma decimal_value_ge: "n \<le> decimal_value n s"
proof (induction s arbitrary: n)
  case Nil then show ?case by simp
next
  case (Cons c s)
  have "n \<le> n * 10 + decimal_digit_value c" by simp
  also have "\<dots> \<le> decimal_value (n * 10 + decimal_digit_value c) s" by (rule Cons.IH)
  finally show ?case by simp
qed

lemma decimal_value_less:
  "list_all is_decimal_digit s \<Longrightarrow> decimal_value n s < (n + 1) * 10 ^ length s"
proof (induction s arbitrary: n)
  case Nil then show ?case by simp
next
  case (Cons c s)
  then have d: "decimal_digit_value c \<le> 9" and r: "list_all is_decimal_digit s"
    using digit_of_char [of c] by auto
  from Cons.IH [OF r, of "n * 10 + decimal_digit_value c"]
  have "decimal_value (n * 10 + decimal_digit_value c) s < (n * 10 + decimal_digit_value c + 1) * 10 ^ length s" .
  also from d have "\<dots> \<le> ((n + 1) * 10) * 10 ^ length s"
    by (intro mult_right_mono) auto
  finally show ?case by (simp add: algebra_simps)
qed


lemma cutoff_value: "maxUint64 div 10 = 1844674407370955161"
  by (simp add: maxUint64_def)

lemma wrap_small: "x \<le> 18446744073709551615 \<Longrightarrow> x mod 18446744073709551616 = (x::nat)"
  by simp

lemma wrap_large:
  assumes "18446744073709551615 < x" and "x < 36893488147419103232"
  shows "x mod 18446744073709551616 = x - (18446744073709551616::nat)"
proof -
  define y where "y = x - 18446744073709551616"
  from assms have x: "x = y + 18446744073709551616" and y: "y < 18446744073709551616"
    unfolding y_def by linarith+
  have "(y + 18446744073709551616) mod 18446744073709551616 = y mod 18446744073709551616" by simp
  with y show ?thesis unfolding x by simp
qed

lemma ParseUint_loop_no_digit:
  "\<not> is_decimal_digit c \<Longrightarrow> ParseUint_loop M n (c # s) = (0, Some ErrSyntax)"
  by (simp add: isDigit_iff)

lemma ParseUint_loop_cutoff:
  "is_decimal_digit c \<Longrightarrow> 1844674407370955162 \<le> n \<Longrightarrow>
     ParseUint_loop M n (c # s) = (M, Some ErrRange)"
  by (simp add: isDigit_iff cutoff_value)

lemma ParseUint_loop_step:
  assumes "is_decimal_digit c" and "n < 1844674407370955162"
  shows "ParseUint_loop 18446744073709551615 n (c # s) =
           (if n * 10 + decimal_digit_value c \<le> 18446744073709551615
            then ParseUint_loop 18446744073709551615 (n * 10 + decimal_digit_value c) s
            else (18446744073709551615, Some ErrRange))"
proof -
  from assms(1) have d: "decimal_digit_value c \<le> 9" and dv: "digitVal c = decimal_digit_value c"
    using digit_of_char [of c] digitVal_eq [of c] by simp_all
  show ?thesis
  proof (cases "n * 10 + decimal_digit_value c \<le> 18446744073709551615")
    case True
    then have "(n * 10 + decimal_digit_value c) mod 18446744073709551616 = n * 10 + decimal_digit_value c"
      by (rule wrap_small)
    with True assms show ?thesis
      by (simp add: isDigit_iff cutoff_value dv Let_def)
  next
    case False
    with d assms(2) have "(n * 10 + decimal_digit_value c) mod 18446744073709551616 =
        n * 10 + decimal_digit_value c - 18446744073709551616"
      by (intro wrap_large) linarith+
    moreover from d have "n * 10 + decimal_digit_value c - 18446744073709551616 < n * 10"
      using False by linarith
    ultimately show ?thesis using False assms
      by (simp add: isDigit_iff cutoff_value dv Let_def)
  qed
qed

lemma ParseUint_loop_accepts:
  "list_all is_decimal_digit s \<Longrightarrow> decimal_value n s \<le> 18446744073709551615 \<Longrightarrow>
     ParseUint_loop 18446744073709551615 n s = (decimal_value n s, None)"
proof (induction s arbitrary: n)
  case Nil then show ?case by simp
next
  case (Cons c s)
  then have c: "is_decimal_digit c" and r: "list_all is_decimal_digit s" by simp_all
  have ge: "n * 10 + decimal_digit_value c \<le> decimal_value (n * 10 + decimal_digit_value c) s"
    by (rule decimal_value_ge)
  with Cons.prems(2) have le: "n * 10 + decimal_digit_value c \<le> 18446744073709551615" by simp
  then have n: "n < 1844674407370955162" by linarith
  from Cons.IH [OF r, of "n * 10 + decimal_digit_value c"] Cons.prems(2)
  have "ParseUint_loop 18446744073709551615 (n * 10 + decimal_digit_value c) s =
          (decimal_value (n * 10 + decimal_digit_value c) s, None)"
    by simp
  with ParseUint_loop_step [OF c n, of s] le show ?case
    by (simp del: ParseUint_loop.simps)
qed

lemma ParseUint_loop_rejects:
  "\<not> (list_all is_decimal_digit s \<and> decimal_value n s \<le> 18446744073709551615) \<Longrightarrow>
     n \<le> 18446744073709551615 \<Longrightarrow>
     ParseUint_loop 18446744073709551615 n s = (0, Some ErrSyntax) \<or>
     ParseUint_loop 18446744073709551615 n s = (18446744073709551615, Some ErrRange)"
proof (induction s arbitrary: n)
  case Nil then show ?case by simp
next
  case (Cons c s)
  show ?case
  proof (cases "is_decimal_digit c")
    case False
    then show ?thesis by (simp add: ParseUint_loop_no_digit del: ParseUint_loop.simps)
  next
    case c: True
    show ?thesis
    proof (cases "n < 1844674407370955162")
      case False
      then show ?thesis using c by (simp add: ParseUint_loop_cutoff del: ParseUint_loop.simps)
    next
      case n: True
      show ?thesis
      proof (cases "n * 10 + decimal_digit_value c \<le> 18446744073709551615")
        case False
        with ParseUint_loop_step [OF c n, of s] show ?thesis
          by (simp del: ParseUint_loop.simps)
      next
        case le: True
        from Cons.prems(1) c
        have "\<not> (list_all is_decimal_digit s \<and>
                 decimal_value (n * 10 + decimal_digit_value c) s \<le> 18446744073709551615)"
          by simp
        from Cons.IH [OF this le] ParseUint_loop_step [OF c n, of s] le
        show ?thesis by (simp del: ParseUint_loop.simps)
      qed
    qed
  qed
qed

lemma ParseUint_accepts:
  "s \<noteq> [] \<Longrightarrow> list_all is_decimal_digit s \<Longrightarrow> decimal_value 0 s \<le> 18446744073709551615 \<Longrightarrow>
     ParseUint s 0 = (decimal_value 0 s, None)"
  by (simp add: ParseUint_def IntSize_def ParseUint_loop_accepts)

lemma ParseUint_rejects:
  "\<not> (s \<noteq> [] \<and> list_all is_decimal_digit s \<and> decimal_value 0 s \<le> 18446744073709551615) \<Longrightarrow>
     ParseUint s 0 = (0, Some ErrSyntax) \<or> ParseUint s 0 = (18446744073709551615, Some ErrRange)"
  using ParseUint_loop_rejects [of s 0]
  by (auto simp: ParseUint_def IntSize_def)


lemma fits_int_iff: "fits_int v \<longleftrightarrow> - 9223372036854775808 \<le> v \<and> v < 9223372036854775808"
  by (simp add: fits_int_def IntSize_def)

lemma literal_strip:
  assumes "s = (if c = CHR ''+'' \<or> c = CHR ''-'' then ds else c # ds)"
  shows "is_integer_literal (c # ds) = (s \<noteq> [] \<and> list_all is_decimal_digit s)"
    and "integer_literal_value (c # ds) =
           (if c = CHR ''-'' then - int (decimal_value 0 s) else int (decimal_value 0 s))"
  using assms by (simp_all add: is_integer_literal_def integer_literal_value_def)

lemma ParseInt_Cons:
  "ParseInt (c # ds) 0 =
     (case ParseUint (if c = CHR ''+'' \<or> c = CHR ''-'' then ds else c # ds) 0 of
        (un, err) \<Rightarrow>
          if err \<noteq> None \<and> err \<noteq> Some ErrRange then (0, err)
          else if c \<noteq> CHR ''-'' \<and> un \<ge> 9223372036854775808 then (9223372036854775807, Some ErrRange)
          else if c = CHR ''-'' \<and> un > 9223372036854775808 then (- 9223372036854775808, Some ErrRange)
          else (if c = CHR ''-'' then - int un else int un, None))"
  by (simp add: ParseInt_def IntSize_def Let_def split: prod.splits)

lemma ParseInt_spec:
  assumes s: "s = (if c = CHR ''+'' \<or> c = CHR ''-'' then ds else c # ds)"
    and v: "v = (if c = CHR ''-'' then - int (decimal_value 0 s) else int (decimal_value 0 s))"
  shows "(s \<noteq> [] \<and> list_all is_decimal_digit s \<and> fits_int v \<longrightarrow> ParseInt (c # ds) 0 = (v, None)) \<and>
         (\<not> (s \<noteq> [] \<and> list_all is_decimal_digit s \<and> fits_int v) \<longrightarrow> snd (ParseInt (c # ds) 0) \<noteq> None)"
proof (cases "s \<noteq> [] \<and> list_all is_decimal_digit s \<and> decimal_value 0 s \<le> 18446744073709551615")
  case True
  then have "ParseUint s 0 = (decimal_value 0 s, None)"
    by (simp add: ParseUint_accepts)
  then have "ParseInt (c # ds) 0 =
     (if c \<noteq> CHR ''-'' \<and> decimal_value 0 s \<ge> 9223372036854775808 then (9223372036854775807, Some ErrRange)
      else if c = CHR ''-'' \<and> decimal_value 0 s > 9223372036854775808 then (- 9223372036854775808, Some ErrRange)
      else (v, None))"
    unfolding ParseInt_Cons s [symmetric] v by simp
  moreover have "fits_int v \<longleftrightarrow>
      \<not> (c \<noteq> CHR ''-'' \<and> decimal_value 0 s \<ge> 9223372036854775808) \<and>
      \<not> (c = CHR ''-'' \<and> decimal_value 0 s > 9223372036854775808)"
    unfolding v fits_int_iff by auto
  ultimately show ?thesis using True by auto
next
  case False
  then have "ParseUint s 0 = (0, Some ErrSyntax) \<or> ParseUint s 0 = (18446744073709551615, Some ErrRange)"
    by (rule ParseUint_rejects)
  then have "snd (ParseInt (c # ds) 0) \<noteq> None"
    unfolding ParseInt_Cons s [symmetric] by auto
  moreover have "\<not> (s \<noteq> [] \<and> list_all is_decimal_digit s \<and> fits_int v)"
    using False unfolding v fits_int_iff by auto
  ultimately show ?thesis by blast
qed

lemma ParseInt_Nil: "ParseInt [] 0 = (0, Some ErrSyntax)"
  by (simp add: ParseInt_def)

lemma Atoi_Nil: "Atoi [] = (0, Some ErrSyntax)"
  by (simp add: Atoi_def ParseInt_Nil)

lemma Atoi_Cons:
  "Atoi (c # ds) =
     (if length ds < 18 then
        (if (c = CHR ''-'' \<or> c = CHR ''+'') \<and> ds = [] then (0, Some ErrSyntax)
         else (case Atoi_loop 0 (if c = CHR ''-'' \<or> c = CHR ''+'' then ds else c # ds) of
                 (n, Some e) \<Rightarrow> (0, Some e)
               | (n, None) \<Rightarrow> (if c = CHR ''-'' then - int n else int n, None)))
      else ParseInt (c # ds) 0)"
  by (simp add: Atoi_def IntSize_def Let_def)

lemma short_literal_fits:
  assumes "list_all is_decimal_digit s" and "length s \<le> 18"
  shows "fits_int (int (decimal_value 0 s))" and "fits_int (- int (decimal_value 0 s))"
proof -
  from decimal_value_less [OF assms(1), of 0] have "decimal_value 0 s < 10 ^ length s" by simp
  also from assms(2) have "(10::nat) ^ length s \<le> 10 ^ 18"
    by (intro power_increasing) simp_all
  finally have "decimal_value 0 s < 1000000000000000000" by simp
  then show "fits_int (int (decimal_value 0 s))" and "fits_int (- int (decimal_value 0 s))"
    unfolding fits_int_iff by linarith+
qed

lemma Atoi_spec:
  assumes s: "s = (if c = CHR ''+'' \<or> c = CHR ''-'' then ds else c # ds)"
    and v: "v = (if c = CHR ''-'' then - int (decimal_value 0 s) else int (decimal_value 0 s))"
  shows "(s \<noteq> [] \<and> list_all is_decimal_digit s \<and> fits_int v \<longrightarrow> Atoi (c # ds) = (v, None)) \<and>
         (\<not> (s \<noteq> [] \<and> list_all is_decimal_digit s \<and> fits_int v) \<longrightarrow> snd (Atoi (c # ds)) \<noteq> None)"
proof (cases "length ds < 18")
  case False
  then have "Atoi (c # ds) = ParseInt (c # ds) 0" by (simp add: Atoi_Cons)
  with ParseInt_spec [OF s v] show ?thesis by simp
next
  case True
  have s': "(if c = CHR ''-'' \<or> c = CHR ''+'' then ds else c # ds) = s"
    unfolding s by auto
  from True have len: "length s \<le> 18" unfolding s by simp
  have e: "s = [] \<longleftrightarrow> (c = CHR ''-'' \<or> c = CHR ''+'') \<and> ds = []"
    unfolding s by auto
  show ?thesis
  proof (cases "s \<noteq> [] \<and> list_all is_decimal_digit s")
    case False
    have "snd (Atoi (c # ds)) \<noteq> None"
    proof (cases "s = []")
      case True
      with e show ?thesis unfolding Atoi_Cons by simp
    next
      case ne: False
      with False have "\<not> list_all is_decimal_digit s" by simp
      with ne e \<open>length ds < 18\<close> show ?thesis
        unfolding Atoi_Cons s' Atoi_loop_spec by simp
    qed
    with False show ?thesis by blast
  next
    case lit: True
    then have f: "fits_int v" using short_literal_fits [of s] len unfolding v by simp
    from lit e \<open>length ds < 18\<close> have "Atoi (c # ds) = (v, None)"
      unfolding Atoi_Cons s' Atoi_loop_spec v by simp
    with f lit show ?thesis by blast
  qed
qed

lemma Atoi_accepts:
  assumes "is_integer_literal s" and "fits_int (integer_literal_value s)"
  shows "Atoi s = (integer_literal_value s, None)"
proof (cases s)
  case Nil with assms show ?thesis by (simp add: is_integer_literal_def)
next
  case (Cons c ds)
  with assms literal_strip [OF refl, of c ds] Atoi_spec [OF refl refl, of c ds]
  show ?thesis by simp
qed

lemma Atoi_rejects:
  assumes "\<not> (is_integer_literal s \<and> fits_int (integer_literal_value s))"
  shows "snd (Atoi s) \<noteq> None"
proof (cases s)
  case Nil then show ?thesis by (simp add: Atoi_Nil)
next
  case (Cons c ds)
  with assms literal_strip [OF refl, of c ds] Atoi_spec [OF refl refl, of c ds]
  show ?thesis by simp
qed


lemma validate_integer_string:
  assumes "Type d = ''integer''"
  shows "validateCredentialLinkAttribute d name (VString s) =
           (if is_integer_literal s \<and> fits_int (integer_literal_value s)
            then Inr (VInt (integer_literal_value s)) else Inl (IntegerParseError name))"
proof (cases "is_integer_literal s \<and> fits_int (integer_literal_value s)")
  case True
  then have "Atoi s = (integer_literal_value s, None)" by (simp add: Atoi_accepts)
  with True assms show ?thesis
    by (simp add: validateCredentialLinkAttribute_def assert_string_def)
next
  case False
  then have "snd (Atoi s) \<noteq> None" by (rule Atoi_rejects)
  then obtain n e where "Atoi s = (n, Some e)" by (cases "Atoi s") auto
  with False assms show ?thesis
    by (simp add: validateCredentialLinkAttribute_def assert_string_def IntegerParseError_def)
qed

lemma validate_not_string:
  assumes "Type d \<in> {''string'', ''integer'', ''boolean''}" and "assert_string v = None"
  shows "validateCredentialLinkAttribute d name v = Inl (TypeMismatchError name)"
  using assms by (auto simp: validateCredentialLinkAttribute_def TypeMismatchError_def)

lemma loop_conversion_fails:
  "index_slice sa (findIndexForSchemaAttribute sa (Name a)) = Inr d \<Longrightarrow>
   validateCredentialLinkAttribute d (Name a) (Value a) = Inl e \<Longrightarrow>
   ValidateAndConvert_loop sa (a # rest) = (a # rest, Fails e)"
  by simp

lemma literal_42: "is_integer_literal ''42'' \<and> integer_literal_value ''42'' = 42"
  by (simp add: is_integer_literal_def integer_literal_value_def is_decimal_digit_def
      decimal_digit_value_def)

lemma literal_big: "is_integer_literal ''9223372036854775808'' \<and>
    integer_literal_value ''9223372036854775808'' = 9223372036854775808"
  by (simp add: is_integer_literal_def integer_literal_value_def is_decimal_digit_def
      decimal_digit_value_def)

section \<open>Claims\<close>

text \<open>
  C1. The claim: an attribute whose name matches no descriptor left in the working
  sequence makes \<open>ValidateAndConvert\<close> return a not-found error, with no out-of-range access.
  The code does otherwise: once the attributes before it are converted, such an attribute
  makes the call panic on the read at index \<open>-1\<close>; the attributes converted so far stay
  converted in the caller's slice.
\<close>

theorem ValidateAndConvert_unmatched_name_panics:
  assumes "AttributeNames s = Inr schemaAttributes"
    and "ValidateAndConvert_loop schemaAttributes before = (mem, Returns remaining)"
    and "Name a \<notin> ID ` set remaining"
  shows "ValidateAndConvert s (before @ a # after) =
           (mem @ a # after, Panics (IndexOutOfRange (- 1) (length remaining)))"
proof -
  have "findIndexForSchemaAttribute remaining (Name a) = - 1"
    using assms(3) by (simp add: findIndexForSchemaAttribute_def findIndex_from_absent)
  then have "ValidateAndConvert_loop remaining (a # after) =
               (a # after, Panics (IndexOutOfRange (- 1) (length remaining)))"
    by (simp add: index_slice_def)
  with loop_append [OF assms(2), of "a # after"]
  have "ValidateAndConvert_loop schemaAttributes (before @ a # after) =
          (mem @ a # after, Panics (IndexOutOfRange (- 1) (length remaining)))"
    by simp
  with assms(1) show ?thesis by (simp add: ValidateAndConvert_def)
qed

text \<open>The witness: the name \<open>age\<close> supplied twice; its descriptor is gone the second time.\<close>

theorem ValidateAndConvert_unmatched_name_panics_witness:
  "ValidateAndConvert example_schema
     [\<lparr>Name = ''age'', Value = VString ''42''\<rparr>, \<lparr>Name = ''age'', Value = VString ''43''\<rparr>] =
     ([\<lparr>Name = ''age'', Value = VInt 42\<rparr>, \<lparr>Name = ''age'', Value = VString ''43''\<rparr>],
      Panics (IndexOutOfRange (- 1) 2))"
  using ValidateAndConvert_unmatched_name_panics [OF AttributeNames_example loop_example_age,
      of "\<lparr>Name = ''age'', Value = VString ''43''\<rparr>" "[]"]
  by simp

text \<open>
  C2. When the loop gets through all supplied attributes, \<open>ValidateAndConvert\<close> succeeds
  if exactly one descriptor is left and fails with the count error otherwise; the number
  left is the number of descriptors minus the number of attributes supplied.
\<close>

theorem ValidateAndConvert_count_check:
  assumes "AttributeNames s = Inr schemaAttributes"
    and "ValidateAndConvert_loop schemaAttributes credentialAttributes = (mem, Returns remaining)"
  shows "ValidateAndConvert s credentialAttributes =
           (if length remaining = 1 then (mem, Returns mem) else (mem, Fails CountMismatchError)) \<and>
         length remaining + length credentialAttributes = length schemaAttributes"
  using assms loop_length [OF assms(2)]
  by (simp add: ValidateAndConvert_def CountMismatchError_def)

text \<open>
  The witness: the round trip of the specification, one descriptor (\<open>id\<close>) left over, and
  the same attributes with a value for \<open>id\<close> too, none left over.
\<close>

theorem ValidateAndConvert_count_check_witness:
  "ValidateAndConvert example_schema example_supplied = (example_converted, Returns example_converted) \<and>
   ValidateAndConvert example_schema (example_supplied @ [\<lparr>Name = ''id'', Value = VString ''x''\<rparr>]) =
     (example_converted @ [\<lparr>Name = ''id'', Value = VString ''x''\<rparr>], Fails CountMismatchError)"
  using ValidateAndConvert_count_check [OF AttributeNames_example loop_example]
    ValidateAndConvert_count_check [OF AttributeNames_example loop_example_all]
  by simp

text \<open>
  C3. For a document with the three levels in place whose innermost mapping holds only
  decodable values, \<open>AttributeNames\<close> returns one descriptor for each key, in the order
  the mapping is iterated: the ids are the keys (distinct when the keys are), and each
  descriptor is what its sub-mapping decodes to with the id set to the key, whatever id the
  sub-mapping itself gives.
\<close>

theorem AttributeNames_descriptors:
  assumes "map_of (content s) ''properties'' = Some (VMap props)"
    and "map_of props ''credentialSubject'' = Some (VMap credSubject)"
    and "map_of credSubject ''properties'' = Some (VMap inner)"
    and "\<forall>kp\<in>set inner. decodable (snd kp)"
  shows "\<exists>attrs. AttributeNames s = Inr attrs \<and>
           length attrs = length inner \<and>
           map ID attrs = map fst inner \<and>
           ID ` set attrs = fst ` set inner \<and>
           (distinct (map fst inner) \<longrightarrow> distinct (map ID attrs)) \<and>
           list_all2 (\<lambda>kp attr. \<exists>a. Decode (snd kp) zeroAttribute = Inr a \<and> attr = a\<lparr>ID := fst kp\<rparr>)
             inner attrs"
proof -
  from AttributeNames_loop_decodable [OF assms(4), of "[]"] obtain attrs where
    r: "AttributeNames_loop [] inner = Inr attrs"
    and l: "list_all2 (\<lambda>kp attr. \<exists>a. Decode (snd kp) zeroAttribute = Inr a \<and> attr = a\<lparr>ID := fst kp\<rparr>)
         inner attrs"
    by auto
  from l have "list_all2 (\<lambda>kp attr. ID attr = fst kp) inner attrs"
    by (rule list_all2_mono) auto
  then have ids: "map ID attrs = map fst inner"
    by (induction rule: list_all2_induct) auto
  then have "set (map ID attrs) = set (map fst inner)" by simp
  then have sets: "ID ` set attrs = fst ` set inner" by simp
  from l have len: "length attrs = length inner" by (simp add: list_all2_lengthD)
  from AttributeNames_levels [OF assms(1-3)] r have "AttributeNames s = Inr attrs" by simp
  with len ids sets l show ?thesis by auto
qed

text \<open>The witness: the example schema, whose \<open>id\<close> sub-mapping has an \<open>id\<close> field of its own.\<close>

theorem AttributeNames_descriptors_witness:
  "\<exists>attrs. AttributeNames example_schema = Inr attrs \<and> length attrs = 3 \<and>
     map ID attrs = [''age'', ''name'', ''id''] \<and> distinct (map ID attrs)"
proof -
  let ?inner = "[(''age'', VMap [(''type'', VString ''integer'')]),
          (''name'', VMap [(''type'', VString ''string''), (''title'', VString ''Name'')]),
          (''id'', VMap [(''type'', VString ''string''), (''id'', VString ''subject'')])]"
  have h1: "map_of (content example_schema) ''properties'' =
              Some (VMap [(''credentialSubject'', VMap [(''properties'', VMap ?inner)])])"
    by (simp add: example_schema_def schema_of_def)
  have h2: "map_of [(''credentialSubject'', VMap [(''properties'', VMap ?inner)])] ''credentialSubject'' =
              Some (VMap [(''properties'', VMap ?inner)])"
    by simp
  have h3: "map_of [(''properties'', VMap ?inner)] ''properties'' = Some (VMap ?inner)"
    by simp
  have h4: "\<forall>kp\<in>set ?inner. decodable (snd kp)"
    by code_simp
  from AttributeNames_descriptors [OF h1 h2 h3 h4] obtain attrs where
    "AttributeNames example_schema = Inr attrs" "length attrs = length ?inner"
    "map ID attrs = map fst ?inner"
    by blast
  then have "AttributeNames example_schema = Inr attrs \<and> length attrs = 3 \<and>
     map ID attrs = [''age'', ''name'', ''id''] \<and> distinct (map ID attrs)"
    by simp
  then show ?thesis by (rule exI)
qed

text \<open>
  C4. A document in which \<open>properties\<close>, \<open>properties.credentialSubject\<close> or
  \<open>properties.credentialSubject.properties\<close> is missing or no mapping makes
  \<open>AttributeNames\<close> fail with the error naming that level, and the three errors differ.
\<close>

theorem AttributeNames_missing_level:
  "(missing_or_not_mapping (content s) ''properties'' \<longrightarrow>
      AttributeNames s = Inl (SchemaStructureError ''properties'')) \<and>
   (map_of (content s) ''properties'' = Some (VMap props) \<and>
    missing_or_not_mapping props ''credentialSubject'' \<longrightarrow>
      AttributeNames s = Inl (SchemaStructureError ''properties.credentialSubject'')) \<and>
   (map_of (content s) ''properties'' = Some (VMap props) \<and>
    map_of props ''credentialSubject'' = Some (VMap credSubject) \<and>
    missing_or_not_mapping credSubject ''properties'' \<longrightarrow>
      AttributeNames s = Inl (SchemaStructureError ''properties.credentialSubject.properties'')) \<and>
   distinct [SchemaStructureError ''properties'',
             SchemaStructureError ''properties.credentialSubject'',
             SchemaStructureError ''properties.credentialSubject.properties'']"
  by (simp add: AttributeNames_def SchemaStructureError_def assert_map_None assert_map_Some)

text \<open>The witness: one document for each level, the level missing or of another type.\<close>

theorem AttributeNames_missing_level_witness:
  "AttributeNames \<lparr>content = [(''title'', VString ''T'')]\<rparr> = Inl (SchemaStructureError ''properties'') \<and>
   AttributeNames \<lparr>content = [(''properties'', VMap [(''credentialSubject'', VString ''x'')])]\<rparr>
     = Inl (SchemaStructureError ''properties.credentialSubject'') \<and>
   AttributeNames
     \<lparr>content = [(''properties'', VMap [(''credentialSubject'', VMap [(''properties'', VSlice [])])])]\<rparr>
     = Inl (SchemaStructureError ''properties.credentialSubject.properties'')"
  using AttributeNames_missing_level [of "\<lparr>content = [(''title'', VString ''T'')]\<rparr>"]
    AttributeNames_missing_level
      [of "\<lparr>content = [(''properties'', VMap [(''credentialSubject'', VString ''x'')])]\<rparr>"
          "[(''credentialSubject'', VString ''x'')]"]
    AttributeNames_missing_level
      [of "\<lparr>content = [(''properties'', VMap [(''credentialSubject'', VMap [(''properties'', VSlice [])])])]\<rparr>"
          "[(''credentialSubject'', VMap [(''properties'', VSlice [])])]"
          "[(''properties'', VSlice [])]"]
  by (simp add: missing_or_not_mapping_def is_mapping_def)

text \<open>
  C5, as the claim states it, fails: \<open>9223372036854775808\<close> is a base-10 integer literal,
  and the conversion of it fails, since the number is no value of the type \<^verbatim>\<open>int\<close>.
\<close>

theorem validateCredentialLinkAttribute_integer_out_of_range:
  "is_integer_literal ''9223372036854775808'' \<and>
   validateCredentialLinkAttribute \<lparr>ID = ''age'', Title = [], Type = ''integer'', Format = []\<rparr>
     ''age'' (VString ''9223372036854775808'') = Inl (IntegerParseError ''age'')"
  using literal_big
    validate_integer_string [of "\<lparr>ID = ''age'', Title = [], Type = ''integer'', Format = []\<rparr>"
      "''age''" "''9223372036854775808''"]
  by (simp add: fits_int_iff)

text \<open>
  C5, amended. For a descriptor of type \<open>integer\<close> the conversion yields the parsed integer
  exactly when the value is a string that is a base-10 integer literal whose number is a
  value of the type \<^verbatim>\<open>int\<close>; any other string is a parse error, a value that is no
  string a type mismatch. When the conversion of an attribute fails, the loop stops with
  that error and leaves this attribute and those after it as they were supplied.
\<close>

theorem validateCredentialLinkAttribute_integer:
  assumes "Type d = ''integer''"
  shows "validateCredentialLinkAttribute d name v =
           (case v of
              VString s \<Rightarrow>
                if is_integer_literal s \<and> fits_int (integer_literal_value s)
                then Inr (VInt (integer_literal_value s)) else Inl (IntegerParseError name)
            | _ \<Rightarrow> Inl (TypeMismatchError name)) \<and>
         (index_slice sa (findIndexForSchemaAttribute sa (Name a)) = Inr d \<and>
          validateCredentialLinkAttribute d (Name a) (Value a) = Inl e \<longrightarrow>
            ValidateAndConvert_loop sa (a # rest) = (a # rest, Fails e))"
proof -
  have "validateCredentialLinkAttribute d name v =
           (case v of
              VString s \<Rightarrow>
                if is_integer_literal s \<and> fits_int (integer_literal_value s)
                then Inr (VInt (integer_literal_value s)) else Inl (IntegerParseError name)
            | _ \<Rightarrow> Inl (TypeMismatchError name))"
  proof (cases "assert_string v")
    case None
    with assms have "validateCredentialLinkAttribute d name v = Inl (TypeMismatchError name)"
      by (simp add: validate_not_string)
    with None show ?thesis by (cases v) (simp_all add: assert_string_def)
  next
    case (Some s)
    then have "v = VString s" by (cases v) (simp_all add: assert_string_def)
    with validate_integer_string [OF assms, of name s] show ?thesis by simp
  qed
  with loop_conversion_fails [of sa a d e rest] show ?thesis by blast
qed

text \<open>The witness: the strings \<open>42\<close> and \<open>4x\<close>, and a boolean.\<close>

theorem validateCredentialLinkAttribute_integer_witness:
  "validateCredentialLinkAttribute \<lparr>ID = ''age'', Title = [], Type = ''integer'', Format = []\<rparr>
     ''age'' (VString ''42'') = Inr (VInt 42) \<and>
   validateCredentialLinkAttribute \<lparr>ID = ''age'', Title = [], Type = ''integer'', Format = []\<rparr>
     ''age'' (VString ''4x'') = Inl (IntegerParseError ''age'') \<and>
   validateCredentialLinkAttribute \<lparr>ID = ''age'', Title = [], Type = ''integer'', Format = []\<rparr>
     ''age'' (VBool True) = Inl (TypeMismatchError ''age'') \<and>
   ValidateAndConvert_loop example_descriptors
     [\<lparr>Name = ''age'', Value = VString ''4x''\<rparr>, \<lparr>Name = ''name'', Value = VString ''alice''\<rparr>] =
     ([\<lparr>Name = ''age'', Value = VString ''4x''\<rparr>, \<lparr>Name = ''name'', Value = VString ''alice''\<rparr>],
      Fails (IntegerParseError ''age''))"
proof -
  let ?d = "\<lparr>ID = ''age'', Title = [], Type = ''integer'', Format = []\<rparr>"
  let ?a = "\<lparr>Name = ''age'', Value = VString ''4x''\<rparr>"
  have t: "Type ?d = ''integer''" by simp
  have l: "\<not> is_integer_literal ''4x''"
    by (simp add: is_integer_literal_def is_decimal_digit_def)
  have i: "index_slice example_descriptors (findIndexForSchemaAttribute example_descriptors (Name ?a)) = Inr ?d"
    by (simp add: index_slice_def findIndexForSchemaAttribute_def example_descriptors_def)
  from validateCredentialLinkAttribute_integer [OF t, where name = "''age''" and v = "VString ''42''", THEN conjunct1] literal_42
  have 1: "validateCredentialLinkAttribute ?d ''age'' (VString ''42'') = Inr (VInt 42)"
    by (simp add: fits_int_iff)
  from validateCredentialLinkAttribute_integer [OF t, where name = "''age''" and v = "VBool True", THEN conjunct1]
  have 2: "validateCredentialLinkAttribute ?d ''age'' (VBool True) = Inl (TypeMismatchError ''age'')"
    by simp
  from validateCredentialLinkAttribute_integer [OF t, where name = "''age''" and v = "VString ''4x''" and sa = example_descriptors
      and a = ?a and e = "IntegerParseError ''age''"
      and rest = "[\<lparr>Name = ''name'', Value = VString ''alice''\<rparr>]"] l i
  have 3: "validateCredentialLinkAttribute ?d ''age'' (VString ''4x'') = Inl (IntegerParseError ''age'') \<and>
    ValidateAndConvert_loop example_descriptors [?a, \<lparr>Name = ''name'', Value = VString ''alice''\<rparr>] =
     ([?a, \<lparr>Name = ''name'', Value = VString ''alice''\<rparr>], Fails (IntegerParseError ''age''))"
    by simp
  from 1 2 3 show ?thesis by simp
qed

text \<open>
  C6. For a descriptor of type \<open>boolean\<close> the conversion yields the parsed boolean exactly
  when the value is a string that is one of the boolean literals; another string is a
  parse error, a value that is no string a type mismatch.
\<close>

theorem validateCredentialLinkAttribute_boolean:
  assumes "Type d = ''boolean''"
  shows "validateCredentialLinkAttribute d name v =
           (case v of
              VString s \<Rightarrow> (case boolean_literal s of
                              Some b \<Rightarrow> Inr (VBool b)
                            | None \<Rightarrow> Inl (BooleanParseError name))
            | _ \<Rightarrow> Inl (TypeMismatchError name))"
  using assms
  by (simp add: validateCredentialLinkAttribute_def assert_string_def ParseBool_def
      boolean_literal_def BooleanParseError_def TypeMismatchError_def split: any.splits)

text \<open>The witness: the example of the specification, \<open>true\<close> and \<open>notabool\<close>.\<close>

theorem validateCredentialLinkAttribute_boolean_witness:
  "validateCredentialLinkAttribute \<lparr>ID = ''active'', Title = [], Type = ''boolean'', Format = []\<rparr>
     ''active'' (VString ''true'') = Inr (VBool True) \<and>
   validateCredentialLinkAttribute \<lparr>ID = ''active'', Title = [], Type = ''boolean'', Format = []\<rparr>
     ''active'' (VString ''notabool'') = Inl (BooleanParseError ''active'') \<and>
   validateCredentialLinkAttribute \<lparr>ID = ''active'', Title = [], Type = ''boolean'', Format = []\<rparr>
     ''active'' (VBool True) = Inl (TypeMismatchError ''active'')"
  using validateCredentialLinkAttribute_boolean
      [of "\<lparr>ID = ''active'', Title = [], Type = ''boolean'', Format = []\<rparr>" "''active''" "VString ''true''"]
    validateCredentialLinkAttribute_boolean
      [of "\<lparr>ID = ''active'', Title = [], Type = ''boolean'', Format = []\<rparr>" "''active''" "VString ''notabool''"]
    validateCredentialLinkAttribute_boolean
      [of "\<lparr>ID = ''active'', Title = [], Type = ''boolean'', Format = []\<rparr>" "''active''" "VBool True"]
  by (simp add: boolean_literal_def)

text \<open>
  C7. Once the attributes before it are converted, an attribute matched to a descriptor
  whose type is none of \<open>string\<close>, \<open>integer\<close>, \<open>boolean\<close> makes \<open>ValidateAndConvert\<close> fail
  with the unsupported-type error naming it, whatever its value and whatever follows.
\<close>

theorem ValidateAndConvert_unsupported_type:
  assumes "AttributeNames s = Inr schemaAttributes"
    and "ValidateAndConvert_loop schemaAttributes before = (mem, Returns remaining)"
    and "index_slice remaining (findIndexForSchemaAttribute remaining (Name a)) = Inr d"
    and "Type d \<notin> {''string'', ''integer'', ''boolean''}"
  shows "ValidateAndConvert s (before @ a # after) =
           (mem @ a # after, Fails (UnsupportedTypeError (Name a)))"
proof -
  have v: "validateCredentialLinkAttribute d (Name a) (Value a) = Inl (UnsupportedTypeError (Name a))"
    using assms(4) by (simp add: validateCredentialLinkAttribute_def UnsupportedTypeError_def)
  have "ValidateAndConvert_loop remaining (a # after) = (a # after, Fails (UnsupportedTypeError (Name a)))"
    using assms(3) v by simp
  with loop_append [OF assms(2), of "a # after"]
  have "ValidateAndConvert_loop schemaAttributes (before @ a # after) =
          (mem @ a # after, Fails (UnsupportedTypeError (Name a)))"
    by simp
  with assms(1) show ?thesis by (simp add: ValidateAndConvert_def)
qed

text \<open>The witness: a descriptor of type \<open>date\<close>.\<close>

theorem ValidateAndConvert_unsupported_type_witness:
  "ValidateAndConvert (schema_of [(''born'', VMap [(''type'', VString ''date'')])])
     [\<lparr>Name = ''born'', Value = VString ''2000-01-01''\<rparr>] =
     ([\<lparr>Name = ''born'', Value = VString ''2000-01-01''\<rparr>], Fails (UnsupportedTypeError ''born''))"
proof -
  have a: "AttributeNames (schema_of [(''born'', VMap [(''type'', VString ''date'')])]) =
             Inr [\<lparr>ID = ''born'', Title = [], Type = ''date'', Format = []\<rparr>]"
    by code_simp
  have l: "ValidateAndConvert_loop [\<lparr>ID = ''born'', Title = [], Type = ''date'', Format = []\<rparr>]
             ([] :: CredentialAttributes list) =
             ([], Returns [\<lparr>ID = ''born'', Title = [], Type = ''date'', Format = []\<rparr>])"
    by simp
  have i: "index_slice [\<lparr>ID = ''born'', Title = [], Type = ''date'', Format = []\<rparr>]
             (findIndexForSchemaAttribute [\<lparr>ID = ''born'', Title = [], Type = ''date'', Format = []\<rparr>]
                (Name \<lparr>Name = ''born'', Value = VString ''2000-01-01''\<rparr>)) =
             Inr \<lparr>ID = ''born'', Title = [], Type = ''date'', Format = []\<rparr>"
    by (simp add: index_slice_def findIndexForSchemaAttribute_def)
  have t: "Type \<lparr>ID = ''born'', Title = [], Type = ''date'', Format = []\<rparr> \<notin> {''string'', ''integer'', ''boolean''}"
    by simp
  from ValidateAndConvert_unsupported_type [OF a l i t, of "[]"] show ?thesis by simp
qed

text \<open>
  C8. When \<open>ValidateAndConvert\<close> succeeds, the sequence it returns has the length and the
  names of the input, in order; each element is the input element with its value replaced
  and nothing else changed; it is the caller's slice as the call leaves it; and the new
  value of each element is what \<open>validateCredentialLinkAttribute\<close> yields for its old value
  and a descriptor of the schema whose id is its name.
\<close>

theorem ValidateAndConvert_frame:
  assumes "ValidateAndConvert s attrs = (mem, Returns out)"
  shows "length out = length attrs \<and> map Name out = map Name attrs \<and>
         list_all2 (\<lambda>a b. \<exists>v. b = a\<lparr>Value := v\<rparr>) attrs out \<and> mem = out \<and>
         (\<exists>schemaAttributes. AttributeNames s = Inr schemaAttributes \<and>
            list_all2 (\<lambda>a b. \<exists>d\<in>set schemaAttributes. ID d = Name a \<and>
               validateCredentialLinkAttribute d (Name a) (Value a) = Inr (Value b) \<and>
               b = a\<lparr>Value := Value b\<rparr>) attrs out)"
proof -
  from assms obtain sa where sa: "AttributeNames s = Inr sa"
    by (cases "AttributeNames s") (simp_all add: ValidateAndConvert_def)
  obtain mem' r where l': "ValidateAndConvert_loop sa attrs = (mem', r)"
    by (cases "ValidateAndConvert_loop sa attrs")
  with assms sa have "\<exists>rest. r = Returns rest \<and> mem = out \<and> mem' = mem"
    by (cases r) (auto simp: ValidateAndConvert_def split: if_splits)
  then obtain rest where r: "r = Returns rest" and eq: "mem = out" and m: "mem' = mem"
    by blast
  from l' r m have l: "ValidateAndConvert_loop sa attrs = (mem, Returns rest)" by simp
  from loop_frame [OF l] eq have f: "list_all2 (\<lambda>a b. \<exists>v. b = a\<lparr>Value := v\<rparr>) attrs out"
    by simp
  then have len: "length out = length attrs"
    by (simp add: list_all2_lengthD)
  from f have "list_all2 (\<lambda>a b. Name b = Name a) attrs out"
    by (rule list_all2_mono) auto
  then have names: "map Name out = map Name attrs"
    by (induction rule: list_all2_induct) auto
  from loop_converted [OF l] eq sa
  have conv: "\<exists>schemaAttributes. AttributeNames s = Inr schemaAttributes \<and>
            list_all2 (\<lambda>a b. \<exists>d\<in>set schemaAttributes. ID d = Name a \<and>
               validateCredentialLinkAttribute d (Name a) (Value a) = Inr (Value b) \<and>
               b = a\<lparr>Value := Value b\<rparr>) attrs out"
    by blast
  from len names f eq conv show ?thesis by blast
qed

text \<open>The witness: the round trip of the specification.\<close>

theorem ValidateAndConvert_frame_witness:
  "ValidateAndConvert example_schema example_supplied = (example_converted, Returns example_converted) \<and>
   length example_converted = length example_supplied \<and>
   map Name example_converted = map Name example_supplied \<and>
   (\<exists>schemaAttributes. AttributeNames example_schema = Inr schemaAttributes \<and>
      list_all2 (\<lambda>a b. \<exists>d\<in>set schemaAttributes. ID d = Name a \<and>
         validateCredentialLinkAttribute d (Name a) (Value a) = Inr (Value b) \<and>
         b = a\<lparr>Value := Value b\<rparr>) example_supplied example_converted)"
proof -
  have v: "ValidateAndConvert example_schema example_supplied =
             (example_converted, Returns example_converted)"
    by (simp add: ValidateAndConvert_def AttributeNames_example loop_example)
  from ValidateAndConvert_frame [OF v] v show ?thesis by simp
qed

text \<open>
  C9. The claim: a malformed sub-mapping makes \<open>AttributeNames\<close> fail with a decoding
  error that names the key it sits under. The code does fail, but it formats the error from
  the sub-mapping (\<open>prop\<close>) where the key (\<open>id\<close>) belongs: the same malformed sub-mapping
  under the key \<open>age\<close> and under the key \<open>height\<close> gives one and the same error, in which
  neither key occurs.
\<close>

theorem AttributeNames_error_omits_key:
  "AttributeNames (schema_of [(''age'', VMap [(''type'', VSlice [VString ''integer'', VString ''null''])])]) =
     Inl (ParsingAttribute (VMap [(''type'', VSlice [VString ''integer'', VString ''null''])])
            (DecodeErrors [(''Type'', VSlice [VString ''integer'', VString ''null''])])) \<and>
   AttributeNames (schema_of [(''height'', VMap [(''type'', VSlice [VString ''integer'', VString ''null''])])]) =
     Inl (ParsingAttribute (VMap [(''type'', VSlice [VString ''integer'', VString ''null''])])
            (DecodeErrors [(''Type'', VSlice [VString ''integer'', VString ''null''])]))"
  by code_simp

text \<open>
  C10. Whatever error the extraction of the descriptors fails with, \<open>ValidateAndConvert\<close>
  returns \<open>ErrProcessSchema\<close> and leaves the attributes as they were: its result does not
  depend on that error.
\<close>

theorem ValidateAndConvert_schema_failure:
  "AttributeNames s = Inl e \<Longrightarrow> ValidateAndConvert s attrs = (attrs, Fails ErrProcessSchema)"
  by (simp add: ValidateAndConvert_def)

text \<open>The witness: a document without \<open>properties\<close>.\<close>

theorem ValidateAndConvert_schema_failure_witness:
  "AttributeNames \<lparr>content = []\<rparr> = Inl (SchemaStructureError ''properties'') \<and>
   ValidateAndConvert \<lparr>content = []\<rparr> example_supplied = (example_supplied, Fails ErrProcessSchema)"
proof -
  have a: "AttributeNames \<lparr>content = []\<rparr> = Inl (SchemaStructureError ''properties'')"
    by (simp add: AttributeNames_def SchemaStructureError_def assert_map_def index_map_def)
  from ValidateAndConvert_schema_failure [OF a, of example_supplied] a show ?thesis by simp
qed

end
